theory Spec2Isabelle
  imports Complex_Main "HOL-Library.Multiset" "HOL-Library.Log_Nat"
begin

section \<open>Boston Housing on SageMaker: the notebook's data preparation and inference client\<close>

text \<open>
  The notebook \<^verbatim>\<open>Boston Housing - XGBoost (Deploy) - High Level.ipynb\<close> is a linear
  script: it loads a table, splits it twice with \<^verbatim>\<open>train_test_split\<close>, writes two
  CSV files with \<^verbatim>\<open>pd.concat(...).to_csv(...)\<close>, trains and deploys remotely, sends
  the test rows to the endpoint and parses the answer with \<^verbatim>\<open>np.fromstring\<close>.
  Each cell is embedded as a function below; the library operations a cell calls are
  embedded with the behaviour they have for the arguments the notebook passes.
  The numbers of the table are not modelled: the type of a table cell is a parameter
  \<open>'v\<close>, and the text of a number is produced by a parameter \<open>fmt\<close>. The one
  floating-point computation that decides a size, the product of the test fraction and
  the number of rows, is computed in double precision.
\<close>

subsection \<open>Exceptions\<close>

text \<open>
  \<open>OSError\<close> stands for every operating-system error other than \<open>FileExistsError\<close>
  (a missing directory, a file where a directory is needed, a directory where a file is
  needed); \<open>EndpointError\<close> is a failed call of the remote endpoint.
\<close>

datatype error =
    ValueError
  | FileExistsError
  | OSError
  | EndpointError

subsection \<open>Data frames\<close>

text \<open>
  A pandas data frame: the column labels and the rows, each row carrying its index
  label. \<^verbatim>\<open>pd.DataFrame(a)\<close> on a matrix numbers the rows \<open>0, 1, ...\<close>.
\<close>

record 'v frame =
  columns :: "string list"
  body :: "(nat \<times> 'v list) list"

definition DataFrame :: "string list \<Rightarrow> 'v list list \<Rightarrow> 'v frame" where
  "DataFrame names a = \<lparr>columns = names, body = zip [0..<length a] a\<rparr>"

definition n_rows :: "'v frame \<Rightarrow> nat" where
  "n_rows df = length (body df)"

definition index_of :: "'v frame \<Rightarrow> nat list" where
  "index_of df = map fst (body df)"

subsection \<open>Cell 4: the Splitter\<close>

text \<open>
  Double precision. \<open>to_double x\<close> is the number with 53 significant bits nearest to
  \<open>x\<close>, ties going to the even one; the exponent range is not bounded, so there is no
  overflow and there are no subnormal numbers. \<open>binary_exponent x\<close> is the \<open>e\<close> with
  \<open>2^e \<le> x < 2^(e+1)\<close>, for positive \<open>x\<close>.
\<close>

definition round_half_even :: "rat \<Rightarrow> int" where
  "round_half_even q =
     (let f = \<lfloor>q\<rfloor>; d = q - of_int f
      in if d < 1 / 2 then f else if 1 / 2 < d then f + 1 else if even f then f else f + 1)"

definition binary_exponent :: "rat \<Rightarrow> int" where
  "binary_exponent x =
     (let (p, q) = quotient_of x; e = bitlen p - bitlen q
      in if 2 powi e \<le> x then e else e - 1)"

definition to_double :: "rat \<Rightarrow> rat" where
  "to_double x =
     (if x = 0 then 0
      else let ulp = 2 powi (binary_exponent \<bar>x\<bar> - 52)
           in sgn x * of_int (round_half_even (\<bar>x\<bar> / ulp)) * ulp)"

text \<open>
  Python's \<^verbatim>\<open>a * n\<close> for a float \<open>a\<close> and an integer \<open>n\<close>: the integer is converted
  to a float, and the product is rounded.
\<close>

definition float_mul :: "rat \<Rightarrow> nat \<Rightarrow> rat" where
  "float_mul a n = to_double (a * to_double (of_nat n))"

text \<open>
  \<^verbatim>\<open>train_test_split(X, Y, test_size=r)\<close> with a fractional \<open>test_size\<close>, no
  \<open>train_size\<close>, shuffling on and no stratification. The sizes are
  \<open>n_test = ceil(test_size * n_samples)\<close>, the product being the float product, and
  \<open>n_train = n_samples - n_test\<close>; a fraction of 1 or more raises \<open>ValueError\<close>.
  The notebook pins no version of scikit-learn; its environment (Python 3.6.5,
  matplotlib 3.0.3) is that of scikit-learn 0.20, where a split may leave the train
  part empty. Versions from 0.21 on refuse such a split, and they refuse a fraction of
  0 or less, which earlier versions accept; a fraction of 0 or less is refused here as
  well, and the notebook passes \<open>0.33\<close>.
\<close>

definition n_test_of :: "rat \<Rightarrow> nat \<Rightarrow> nat" where
  "n_test_of test_size n_samples = nat \<lceil>float_mul test_size n_samples\<rceil>"

definition validate_shuffle_split :: "nat \<Rightarrow> rat \<Rightarrow> error + (nat \<times> nat)" where
  "validate_shuffle_split n_samples test_size =
     (if test_size \<le> 0 \<or> test_size \<ge> 1 then Inl ValueError
      else
        let n_test = n_test_of test_size n_samples;
            n_train = n_samples - n_test
        in Inr (n_train, n_test))"

text \<open>
  The random generator draws a permutation of \<open>0 ..< n\<close>; the draw is an argument
  here, and \<open>is_permutation p n\<close> says that \<open>p\<close> is such a draw.
\<close>

definition is_permutation :: "nat list \<Rightarrow> nat \<Rightarrow> bool" where
  "is_permutation p n \<longleftrightarrow> sort p = [0..<n]"

text \<open>
  Positional selection of rows (\<^verbatim>\<open>iloc\<close>): the rows keep their index labels. The
  positions are taken from a permutation of the frame's positions, so each is in range.
\<close>

definition safe_indexing :: "'v frame \<Rightarrow> nat list \<Rightarrow> 'v frame" where
  "safe_indexing a indices = a\<lparr>body := map (\<lambda>i. body a ! i) indices\<rparr>"

definition train_test_split ::
  "nat list \<Rightarrow> 'v frame \<Rightarrow> 'v frame \<Rightarrow> rat \<Rightarrow> error + ('v frame \<times> 'v frame \<times> 'v frame \<times> 'v frame)"
where
  "train_test_split permutation X Y test_size =
     (if n_rows X \<noteq> n_rows Y then Inl ValueError
      else case validate_shuffle_split (n_rows X) test_size of
        Inl e \<Rightarrow> Inl e
      | Inr (n_train, n_test) \<Rightarrow>
          let ind_test = take n_test permutation;
              ind_train = take n_train (drop n_test permutation)
          in Inr (safe_indexing X ind_train, safe_indexing X ind_test,
                  safe_indexing Y ind_train, safe_indexing Y ind_test))"

record 'v splits =
  X_train :: "'v frame"
  X_val :: "'v frame"
  X_test :: "'v frame"
  Y_train :: "'v frame"
  Y_val :: "'v frame"
  Y_test :: "'v frame"

text \<open>
  The cell, with the two fractions as arguments (the notebook passes the float \<open>0.33\<close>
  twice).
  \<open>data\<close> is \<^verbatim>\<open>boston.data\<close> (one row of features per record), \<open>target\<close> is
  \<^verbatim>\<open>boston.target\<close>; \<open>perm1\<close> and \<open>perm2\<close> are the two random draws.
\<close>

definition splitter ::
  "nat list \<Rightarrow> nat list \<Rightarrow> rat \<Rightarrow> rat \<Rightarrow> string list \<Rightarrow> 'v list list \<Rightarrow> 'v list \<Rightarrow> error + 'v splits"
where
  "splitter perm1 perm2 r1 r2 feature_names data target =
     (let X_bos_pd = DataFrame feature_names data;
          Y_bos_pd = DataFrame [''0''] (map (\<lambda>y. [y]) target)
      in case train_test_split perm1 X_bos_pd Y_bos_pd r1 of
           Inl e \<Rightarrow> Inl e
         | Inr (X_tr, X_te, Y_tr, Y_te) \<Rightarrow>
             (case train_test_split perm2 X_tr Y_tr r2 of
                Inl e \<Rightarrow> Inl e
              | Inr (X_tr2, X_v, Y_tr2, Y_v) \<Rightarrow>
                  Inr \<lparr>X_train = X_tr2, X_val = X_v, X_test = X_te,
                       Y_train = Y_tr2, Y_val = Y_v, Y_test = Y_te\<rparr>))"

definition cell4 ::
  "nat list \<Rightarrow> nat list \<Rightarrow> string list \<Rightarrow> 'v list list \<Rightarrow> 'v list \<Rightarrow> error + 'v splits"
where
  "cell4 perm1 perm2 = splitter perm1 perm2 (to_double (33 / 100)) (to_double (33 / 100))"


subsection \<open>Cell 6: concatenation and CSV text\<close>

abbreviation comma :: char where "comma \<equiv> CHR '',''"
abbreviation newline :: char where "newline \<equiv> CHR 0x0A"

text \<open>Python's \<^verbatim>\<open>sep.join(fields)\<close> for a one-character separator.\<close>

fun join :: "char \<Rightarrow> string list \<Rightarrow> string" where
  "join sep [] = []"
| "join sep [x] = x"
| "join sep (x # y # ys) = x @ sep # join sep (y # ys)"

text \<open>The decimal text of an index label.\<close>

fun str_nat :: "nat \<Rightarrow> string" where
  "str_nat n =
     (if n < 10 then [char_of (48 + n)]
      else str_nat (n div 10) @ [char_of (48 + n mod 10)])"

text \<open>
  \<^verbatim>\<open>pd.concat([A, B], axis=1)\<close> aligns the two frames on their index labels. The
  notebook only concatenates frames that carry the same labels in the same order; the
  result then has the rows of \<open>A\<close> and \<open>B\<close> side by side. For frames whose labels
  differ pandas builds the union of the labels and fills the gaps with NaN: that case
  is outside this model and is reported as \<open>None\<close>.
\<close>

definition concat_axis1 :: "'v frame \<Rightarrow> 'v frame \<Rightarrow> 'v frame option" where
  "concat_axis1 A B =
     (if index_of A = index_of B
      then Some \<lparr>columns = columns A @ columns B,
                 body = map2 (\<lambda>(i, a) (j, b). (i, a @ b)) (body A) (body B)\<rparr>
      else None)"

text \<open>
  \<^verbatim>\<open>df.to_csv(header=h, index=i)\<close> on a numeric frame: an optional line of column
  labels, then one line per row, the fields separated by commas and every line ended by
  a newline; with \<open>index\<close> the row label is the first field. Numbers are never quoted.
\<close>

definition to_csv :: "('v \<Rightarrow> string) \<Rightarrow> 'v frame \<Rightarrow> bool \<Rightarrow> bool \<Rightarrow> string" where
  "to_csv fmt df header index =
     (if header then join comma ((if index then [[]] else []) @ columns df) @ [newline] else [])
     @ concat (map (\<lambda>(i, r). join comma ((if index then [str_nat i] else []) @ map fmt r)
                              @ [newline]) (body df))"

subsection \<open>The local file system\<close>

text \<open>
  A path is the list of its components from the root; the file system maps a path to
  what is there. Access rights are not modelled.
\<close>

datatype node = Dir | File string

type_synonym path = "string list"
type_synonym filesystem = "path \<Rightarrow> node option"

text \<open>Every entry lives in a directory, and the root is a directory.\<close>

definition wellformed :: "filesystem \<Rightarrow> bool" where
  "wellformed fs \<longleftrightarrow>
     fs [] = Some Dir \<and> (\<forall>p. p \<noteq> [] \<longrightarrow> fs p \<noteq> None \<longrightarrow> fs (butlast p) = Some Dir)"

definition os_path_exists :: "filesystem \<Rightarrow> path \<Rightarrow> bool" where
  "os_path_exists fs p \<longleftrightarrow> fs p \<noteq> None"

definition os_path_join :: "path \<Rightarrow> string \<Rightarrow> path" where
  "os_path_join dir name = dir @ [name]"

text \<open>
  \<^verbatim>\<open>os.mkdir(p)\<close>: the path must be free and its parent must be a directory.
\<close>

definition os_mkdir :: "path \<Rightarrow> filesystem \<Rightarrow> error + filesystem" where
  "os_mkdir p fs =
     (if fs p \<noteq> None then Inl FileExistsError
      else if fs (butlast p) = Some Dir then Inr (fs(p \<mapsto> Dir))
      else Inl OSError)"

text \<open>
  \<^verbatim>\<open>os.makedirs(name)\<close>: create the missing ancestors first, then the directory
  itself; a \<open>FileExistsError\<close> from the recursive call is ignored, every other error
  is passed on.
\<close>

function os_makedirs :: "path \<Rightarrow> filesystem \<Rightarrow> error + filesystem" where
  "os_makedirs name fs =
     (let head = butlast name in
      if name \<noteq> [] \<and> head \<noteq> [] \<and> \<not> os_path_exists fs head then
        (case os_makedirs head fs of
           Inr fs' \<Rightarrow> os_mkdir name fs'
         | Inl FileExistsError \<Rightarrow> os_mkdir name fs
         | Inl e \<Rightarrow> Inl e)
      else os_mkdir name fs)"
  by pat_completeness auto
termination
  by (relation "measure (\<lambda>(name, fs). length name)") auto

declare os_makedirs.simps [simp del]

text \<open>Opening a file for writing and writing a text: the directory must be there.\<close>

definition write_text :: "path \<Rightarrow> string \<Rightarrow> filesystem \<Rightarrow> error + filesystem" where
  "write_text p text fs =
     (if p \<noteq> [] \<and> fs (butlast p) = Some Dir \<and> fs p \<noteq> Some Dir
      then Inr (fs(p \<mapsto> File text))
      else Inl OSError)"

subsection \<open>Cells 5 and 6: the Local Writer\<close>

text \<open>
  Cell 5:
  \<^verbatim>\<open>if not os.path.exists(data_dir): os.makedirs(data_dir)\<close>.
\<close>

definition cell5 :: "path \<Rightarrow> filesystem \<Rightarrow> error + filesystem" where
  "cell5 data_dir fs =
     (if \<not> os_path_exists fs data_dir then os_makedirs data_dir fs else Inr fs)"

text \<open>
  One line of cell 6:
  \<^verbatim>\<open>pd.concat([Y, X], axis=1).to_csv(path, header=False, index=False)\<close>.
\<close>

definition write_csv ::
  "('v \<Rightarrow> string) \<Rightarrow> 'v frame \<Rightarrow> 'v frame \<Rightarrow> path \<Rightarrow> filesystem \<Rightarrow> (error + filesystem) option"
where
  "write_csv fmt Y X p fs =
     (case concat_axis1 Y X of
        None \<Rightarrow> None
      | Some df \<Rightarrow> Some (write_text p (to_csv fmt df False False) fs))"

text \<open>Cell 6 writes the validation file first, then the train file.\<close>

definition cell6 ::
  "('v \<Rightarrow> string) \<Rightarrow> path \<Rightarrow> 'v splits \<Rightarrow> filesystem \<Rightarrow> (error + filesystem) option"
where
  "cell6 fmt data_dir s fs =
     (case write_csv fmt (Y_val s) (X_val s) (os_path_join data_dir ''validation.csv'') fs of
        None \<Rightarrow> None
      | Some (Inl e) \<Rightarrow> Some (Inl e)
      | Some (Inr fs1) \<Rightarrow>
          write_csv fmt (Y_train s) (X_train s) (os_path_join data_dir ''train.csv'') fs1)"

text \<open>The Local Writer is cell 5 followed by cell 6.\<close>

definition local_writer ::
  "('v \<Rightarrow> string) \<Rightarrow> path \<Rightarrow> 'v splits \<Rightarrow> filesystem \<Rightarrow> (error + filesystem) option"
where
  "local_writer fmt data_dir s fs =
     (case cell5 data_dir fs of
        Inl e \<Rightarrow> Some (Inl e)
      | Inr fs' \<Rightarrow> cell6 fmt data_dir s fs')"

subsection \<open>Reading a delimited file back\<close>

text \<open>Python's \<^verbatim>\<open>s.split(sep)\<close> for a one-character separator.\<close>

fun split_on :: "char \<Rightarrow> string \<Rightarrow> string list" where
  "split_on sep [] = [[]]"
| "split_on sep (c # cs) =
     (if c = sep then [] # split_on sep cs
      else (case split_on sep cs of
              [] \<Rightarrow> [[c]]
            | w # ws \<Rightarrow> (c # w) # ws))"

text \<open>The lines of a text; the newline that ends the last line opens no further line.\<close>

definition read_lines :: "string \<Rightarrow> string list" where
  "read_lines s = (let ls = split_on newline s in if last ls = [] then butlast ls else ls)"

text \<open>
  Modelled from the spec: the notebook never reads its files back (the training
  container does), so the reader is the one that section 6 of the specification
  implies for the delimited file format: one record per line, the fields of a line
  separated by commas, every field the text of a number. \<open>parse\<close> reads one number;
  a field that is not a number makes the whole read fail.
\<close>

definition read_csv :: "(string \<Rightarrow> 'v option) \<Rightarrow> string \<Rightarrow> 'v list list option" where
  "read_csv parse s =
     those (map (\<lambda>line. those (map parse (split_on comma line))) (read_lines s))"

subsection \<open>Numbers as decimal text\<close>

text \<open>
  A concrete instance of the two parameters for the examples: a number is represented
  by its decimal text (an optional sign, digits, an optional fraction), which
  \<open>fmt\<close> writes unchanged and \<open>num_text\<close> accepts.
\<close>

definition is_digit :: "char \<Rightarrow> bool" where
  "is_digit c \<longleftrightarrow> c \<in> set ''0123456789''"

definition is_decimal :: "string \<Rightarrow> bool" where
  "is_decimal s \<longleftrightarrow>
     (let t = (case s of c # cs \<Rightarrow> if c = CHR ''-'' then cs else s | [] \<Rightarrow> s);
          frac = dropWhile is_digit t
      in takeWhile is_digit t \<noteq> []
         \<and> (case frac of
               [] \<Rightarrow> True
             | c # cs \<Rightarrow> c = CHR ''.'' \<and> cs \<noteq> [] \<and> list_all is_digit cs))"

definition num_text :: "string \<Rightarrow> string option" where
  "num_text s = (if is_decimal s then Some s else None)"

definition fmt_text :: "string \<Rightarrow> string" where
  "fmt_text s = s"

subsection \<open>Cell 13: the Inference Client\<close>

text \<open>
  \<^verbatim>\<open>csv_serializer\<close>: the rows joined by newlines, the fields of a row by commas; an
  empty batch and an empty row raise \<open>ValueError\<close>.
\<close>

definition csv_serializer :: "('v \<Rightarrow> string) \<Rightarrow> 'v list list \<Rightarrow> error + string" where
  "csv_serializer fmt data =
     (if data = [] \<or> [] \<in> set data then Inl ValueError
      else Inr (join newline (map (\<lambda>row. join comma (map fmt row)) data)))"

text \<open>
  The endpoint is remote: it is an argument, a function from the request payload to
  either a failure of the call or the text of the response.
\<close>

definition predict ::
  "(string \<Rightarrow> error + string) \<Rightarrow> ('v \<Rightarrow> string) \<Rightarrow> 'v list list \<Rightarrow> error + string"
where
  "predict endpoint fmt data =
     (case csv_serializer fmt data of
        Inl e \<Rightarrow> Inl e
      | Inr payload \<Rightarrow> endpoint payload)"

text \<open>
  \<^verbatim>\<open>np.fromstring(s, sep=',')\<close>: the numbers between the commas, up to the first field
  that is not a number (numpy warns there and returns what it has read). \<open>num\<close>
  reads one number. The number of fields is not an argument.
\<close>

fun read_numbers :: "(string \<Rightarrow> 'n option) \<Rightarrow> string list \<Rightarrow> 'n list" where
  "read_numbers num [] = []"
| "read_numbers num (w # ws) =
     (case num w of
        None \<Rightarrow> []
      | Some x \<Rightarrow> x # read_numbers num ws)"

definition fromstring :: "(string \<Rightarrow> 'n option) \<Rightarrow> string \<Rightarrow> 'n list" where
  "fromstring num s = (if s = [] then [] else read_numbers num (split_on comma s))"

definition inference_client ::
  "(string \<Rightarrow> error + string) \<Rightarrow> ('v \<Rightarrow> string) \<Rightarrow> (string \<Rightarrow> 'n option) \<Rightarrow> 'v frame
     \<Rightarrow> error + 'n list"
where
  "inference_client endpoint fmt num X_te =
     (case predict endpoint fmt (map snd (body X_te)) of
        Inl e \<Rightarrow> Inl e
      | Inr Y_pred \<Rightarrow> Inr (fromstring num Y_pred))"

text \<open>An endpoint that answers every request with the same text.\<close>

definition fixed_endpoint :: "string \<Rightarrow> string \<Rightarrow> error + string" where
  "fixed_endpoint response payload = Inr response"

subsection \<open>What creating a directory changes\<close>

text \<open>
  \<open>created fs p fs'\<close>: in \<open>fs'\<close> the path \<open>p\<close> is a directory, and \<open>fs'\<close> differs from
  \<open>fs\<close> only at paths that were free and are no longer than \<open>p\<close>.
\<close>

definition created :: "filesystem \<Rightarrow> path \<Rightarrow> filesystem \<Rightarrow> bool" where
  "created fs p fs' \<longleftrightarrow>
     wellformed fs' \<and> fs' p = Some Dir
     \<and> (\<forall>q. fs' q = fs q \<or> (fs q = None \<and> length q \<le> length p))"


subsection \<open>Sample inputs\<close>

text \<open>
  The first five records of the dataset, their numbers as decimal text; the split that
  the cell returns for them with the draws \<open>[2, 0, 1, 3, 4]\<close> and \<open>[1, 0, 2]\<close>; and
  three states of the file system: with the data directory, with the root only, and
  with a regular file named \<open>data\<close>.
\<close>

definition boston_feature_names :: "string list" where
  "boston_feature_names = [''CRIM'', ''ZN'', ''INDUS'', ''CHAS'', ''NOX'', ''RM'', ''AGE'', ''DIS'',
     ''RAD'', ''TAX'', ''PTRATIO'', ''B'', ''LSTAT'']"

definition sample_data :: "string list list" where
  "sample_data =
    [[''0.00632'', ''18.0'', ''2.31'', ''0.0'', ''0.538'', ''6.575'', ''65.2'', ''4.09'',
      ''1.0'', ''296.0'', ''15.3'', ''396.9'', ''4.98''],
     [''0.02731'', ''0.0'', ''7.07'', ''0.0'', ''0.469'', ''6.421'', ''78.9'', ''4.9671'',
      ''2.0'', ''242.0'', ''17.8'', ''396.9'', ''9.14''],
     [''0.02729'', ''0.0'', ''7.07'', ''0.0'', ''0.469'', ''7.185'', ''61.1'', ''4.9671'',
      ''2.0'', ''242.0'', ''17.8'', ''392.83'', ''4.03''],
     [''0.03237'', ''0.0'', ''2.18'', ''0.0'', ''0.458'', ''6.998'', ''45.8'', ''6.0622'',
      ''3.0'', ''222.0'', ''18.7'', ''394.63'', ''2.94''],
     [''0.06905'', ''0.0'', ''2.18'', ''0.0'', ''0.458'', ''7.147'', ''54.2'', ''6.0622'',
      ''3.0'', ''222.0'', ''18.7'', ''396.9'', ''5.33'']]"

definition sample_target :: "string list" where
  "sample_target = [''24.0'', ''21.6'', ''34.7'', ''33.4'', ''36.2'']"

definition sample_split :: "string splits" where
  "sample_split =
     \<lparr>X_train = \<lparr>columns = boston_feature_names, body = [(1, sample_data ! 1), (4, sample_data ! 4)]\<rparr>,
      X_val = \<lparr>columns = boston_feature_names, body = [(3, sample_data ! 3)]\<rparr>,
      X_test = \<lparr>columns = boston_feature_names, body = [(2, sample_data ! 2), (0, sample_data ! 0)]\<rparr>,
      Y_train = \<lparr>columns = [''0''], body = [(1, [''21.6'']), (4, [''36.2''])]\<rparr>,
      Y_val = \<lparr>columns = [''0''], body = [(3, [''33.4''])]\<rparr>,
      Y_test = \<lparr>columns = [''0''], body = [(2, [''34.7'']), (0, [''24.0''])]\<rparr>\<rparr>"

definition home_fs :: filesystem where
  "home_fs = [[] \<mapsto> Dir, [''data''] \<mapsto> Dir, [''data'', ''boston''] \<mapsto> Dir]"

definition bare_fs :: filesystem where
  "bare_fs = [[] \<mapsto> Dir]"

definition blocked_fs :: filesystem where
  "blocked_fs = [[] \<mapsto> Dir, [''data''] \<mapsto> File []]"


section \<open>Properties\<close>

subsection \<open>The Splitter\<close>

lemma is_permutation_mset: "is_permutation p n \<Longrightarrow> mset p = mset [0..<n]"
  unfolding is_permutation_def by (metis mset_sort)

lemma is_permutation_length: "is_permutation p n \<Longrightarrow> length p = n"
  using is_permutation_mset [of p n] mset_eq_length [of p "[0..<n]"] by simp



lemma train_test_split_ok:
  assumes "n_rows X = n_rows Y" "0 < r" "r < 1"
    and "length p = n_rows X"
  shows "train_test_split p X Y r =
           Inr (safe_indexing X (drop (n_test_of r (n_rows X)) p),
                safe_indexing X (take (n_test_of r (n_rows X)) p),
                safe_indexing Y (drop (n_test_of r (n_rows X)) p),
                safe_indexing Y (take (n_test_of r (n_rows X)) p))"
  using assms by (simp add: train_test_split_def validate_shuffle_split_def Let_def)

lemma body_safe_indexing [simp]: "body (safe_indexing a ind) = map ((!) (body a)) ind"
  by (simp add: safe_indexing_def)

lemma n_rows_safe_indexing [simp]: "n_rows (safe_indexing a ind) = length ind"
  by (simp add: n_rows_def)

lemma body_DataFrame [simp]: "body (DataFrame names a) = zip [0..<length a] a"
  by (simp add: DataFrame_def)

lemma n_rows_DataFrame [simp]: "n_rows (DataFrame names a) = length a"
  by (simp add: n_rows_def)


text \<open>What the cell returns.\<close>

lemma splitter_ok:
  fixes data :: "'v list list"
  assumes r1: "0 < r1" "r1 < 1" and r2: "0 < r2" "r2 < 1"
    and len: "length target = length data"
    and nt1: "nt1 = n_test_of r1 (length data)"
    and nt2: "nt2 = n_test_of r2 (length data - nt1)"
    and p1: "is_permutation perm1 (length data)"
    and p2: "is_permutation perm2 (length data - nt1)"
    and X: "X = DataFrame feature_names data"
    and Y: "Y = DataFrame [''0''] (map (\<lambda>y. [y]) target)"
  shows "splitter perm1 perm2 r1 r2 feature_names data target =
    Inr \<lparr>X_train = safe_indexing (safe_indexing X (drop nt1 perm1)) (drop nt2 perm2),
         X_val = safe_indexing (safe_indexing X (drop nt1 perm1)) (take nt2 perm2),
         X_test = safe_indexing X (take nt1 perm1),
         Y_train = safe_indexing (safe_indexing Y (drop nt1 perm1)) (drop nt2 perm2),
         Y_val = safe_indexing (safe_indexing Y (drop nt1 perm1)) (take nt2 perm2),
         Y_test = safe_indexing Y (take nt1 perm1)\<rparr>"
proof -
  have l1: "length perm1 = length data" using p1 by (rule is_permutation_length)
  have l2: "length perm2 = length data - nt1" using p2 by (rule is_permutation_length)
  have first: "train_test_split perm1 X Y r1 =
      Inr (safe_indexing X (drop nt1 perm1), safe_indexing X (take nt1 perm1),
           safe_indexing Y (drop nt1 perm1), safe_indexing Y (take nt1 perm1))"
    using train_test_split_ok [of X Y r1 perm1] r1 len l1 by (simp add: X Y nt1)
  have second: "train_test_split perm2 (safe_indexing X (drop nt1 perm1))
        (safe_indexing Y (drop nt1 perm1)) r2 =
      Inr (safe_indexing (safe_indexing X (drop nt1 perm1)) (drop nt2 perm2),
           safe_indexing (safe_indexing X (drop nt1 perm1)) (take nt2 perm2),
           safe_indexing (safe_indexing Y (drop nt1 perm1)) (drop nt2 perm2),
           safe_indexing (safe_indexing Y (drop nt1 perm1)) (take nt2 perm2))"
  proof -
    have nrX: "n_rows (safe_indexing X (drop nt1 perm1)) = length data - nt1"
      using l1 by simp
    have nrY: "n_rows (safe_indexing Y (drop nt1 perm1)) = length data - nt1"
      using l1 by simp
    show ?thesis
      unfolding nt2
      using train_test_split_ok [of "safe_indexing X (drop nt1 perm1)"
          "safe_indexing Y (drop nt1 perm1)" r2 perm2]
      unfolding nrX nrY using r2 l2 by blast
  qed
  show ?thesis
    unfolding splitter_def Let_def using first second by (simp add: X Y)
qed





text \<open>
  The sizes of the test parts in double precision: \<open>ceil(0.33 * 506)\<close> and
  \<open>ceil(0.33 * 339)\<close> of the notebook's run, \<open>ceil(0.07 * 100)\<close>, where the float
  product \<open>7.000000000000001\<close> gives 8 and not 7, and the sizes for the five sample
  records.
\<close>

lemma ratio_033: "0 < to_double (33 / 100) \<and> to_double (33 / 100) < 1"
  by code_simp

lemma n_test_506: "n_test_of (to_double (33 / 100)) 506 = 167"
  by code_simp

lemma n_test_339: "n_test_of (to_double (33 / 100)) 339 = 112"
  by code_simp

lemma n_test_7_percent: "n_test_of (to_double (7 / 100)) 100 = 8"
  by code_simp

lemma n_test_5: "n_test_of (to_double (33 / 100)) 5 = 2"
  by code_simp


text \<open>
  Claim C2. For a dataset of 506 records the cell, which splits with the fraction
  \<open>0.33\<close> twice, returns a test part of 167 rows, a validation part of 112 rows and a
  train part of 227 rows, whatever the two random draws are.
\<close>

theorem split_sizes_506:
  fixes data :: "'v list list"
  assumes "length data = 506" "length target = 506"
    and "is_permutation perm1 506" "is_permutation perm2 339"
  shows "\<exists>s. cell4 perm1 perm2 feature_names data target = Inr s
     \<and> n_rows (X_test s) = 167 \<and> n_rows (X_val s) = 112 \<and> n_rows (X_train s) = 227
     \<and> n_rows (Y_test s) = 167 \<and> n_rows (Y_val s) = 112 \<and> n_rows (Y_train s) = 227"
proof -
  have nt1: "167 = n_test_of (to_double (33 / 100)) (length data)"
    using n_test_506 by (simp only: assms(1))
  have "length data - 167 = 339" by (simp add: assms(1))
  then have nt2: "112 = n_test_of (to_double (33 / 100)) (length data - 167)"
    using n_test_339 by (simp only:)
  have l1: "length perm1 = 506" using assms(3) by (rule is_permutation_length)
  have l2: "length perm2 = 339" using assms(4) by (rule is_permutation_length)
  have "splitter perm1 perm2 (to_double (33 / 100)) (to_double (33 / 100)) feature_names data target = Inr
     \<lparr>X_train = safe_indexing (safe_indexing (DataFrame feature_names data) (drop 167 perm1)) (drop 112 perm2),
      X_val = safe_indexing (safe_indexing (DataFrame feature_names data) (drop 167 perm1)) (take 112 perm2),
      X_test = safe_indexing (DataFrame feature_names data) (take 167 perm1),
      Y_train = safe_indexing (safe_indexing (DataFrame [''0''] (map (\<lambda>y. [y]) target)) (drop 167 perm1)) (drop 112 perm2),
      Y_val = safe_indexing (safe_indexing (DataFrame [''0''] (map (\<lambda>y. [y]) target)) (drop 167 perm1)) (take 112 perm2),
      Y_test = safe_indexing (DataFrame [''0''] (map (\<lambda>y. [y]) target)) (take 167 perm1)\<rparr>"
    by (rule splitter_ok [OF _ _ _ _ _ nt1 nt2]) (simp_all add: assms ratio_033)
  then show ?thesis by (simp add: cell4_def l1 l2)
qed

theorem split_sizes_506_witness:
  "\<exists>s. cell4 [0..<506] [0..<339] [] (replicate 506 [0::nat]) (replicate 506 0) = Inr s
     \<and> n_rows (X_test s) = 167 \<and> n_rows (X_val s) = 112 \<and> n_rows (X_train s) = 227
     \<and> n_rows (Y_test s) = 167 \<and> n_rows (Y_val s) = 112 \<and> n_rows (Y_train s) = 227"
  by (rule split_sizes_506) (simp_all add: is_permutation_def)



subsection \<open>The text of a file and its lines\<close>

text \<open>Splitting undoes joining when the separator occurs in no field.\<close>

lemma split_on_no_sep: "sep \<notin> set s \<Longrightarrow> split_on sep s = [s]"
  by (induction s) auto

lemma split_on_append:
  "sep \<notin> set s \<Longrightarrow> split_on sep (s @ sep # t) = s # split_on sep t"
  by (induction s) auto

lemma split_on_join:
  "ws \<noteq> [] \<Longrightarrow> \<forall>w \<in> set ws. sep \<notin> set w \<Longrightarrow> split_on sep (join sep ws) = ws"
proof (induction sep ws rule: join.induct)
  case (1 sep)
  then show ?case by simp
next
  case (2 sep x)
  then show ?case by (simp add: split_on_no_sep)
next
  case (3 sep x y ys)
  then show ?case by (simp add: split_on_append)
qed

lemma set_join: "set (join sep ws) \<subseteq> insert sep (\<Union>w \<in> set ws. set w)"
  by (induction sep ws rule: join.induct) auto

lemma split_on_lines:
  "\<forall>l \<in> set ls. newline \<notin> set l \<Longrightarrow>
     split_on newline (concat (map (\<lambda>l. l @ [newline]) ls)) = ls @ [[]]"
  by (induction ls) (auto simp: split_on_append)

lemma read_lines_terminated:
  assumes "\<forall>l \<in> set ls. newline \<notin> set l"
  shows "read_lines (concat (map (\<lambda>l. l @ [newline]) ls)) = ls"
  using split_on_lines [OF assms] by (simp add: read_lines_def)

lemma to_csv_plain:
  "to_csv fmt df False False = concat (map (\<lambda>l. l @ [newline]) (map (\<lambda>r. join comma (map fmt (snd r))) (body df)))"
  by (simp add: to_csv_def case_prod_unfold comp_def)

lemma read_lines_to_csv:
  assumes "\<forall>r \<in> set (body df). \<forall>v \<in> set (snd r). newline \<notin> set (fmt v)"
  shows "read_lines (to_csv fmt df False False) = map (\<lambda>r. join comma (map fmt (snd r))) (body df)"
proof -
  have "\<forall>l \<in> set (map (\<lambda>r. join comma (map fmt (snd r))) (body df)). newline \<notin> set l"
  proof
    fix l assume "l \<in> set (map (\<lambda>r. join comma (map fmt (snd r))) (body df))"
    then obtain r where r: "r \<in> set (body df)" and l: "l = join comma (map fmt (snd r))" by auto
    show "newline \<notin> set l"
    proof
      assume "newline \<in> set l"
      then have "newline \<in> insert comma (\<Union>w \<in> set (map fmt (snd r)). set w)"
        using set_join [of comma "map fmt (snd r)"] l by blast
      then show False using assms r by auto
    qed
  qed
  then show ?thesis unfolding to_csv_plain by (rule read_lines_terminated)
qed

lemma fields_of_lines:
  assumes "\<forall>r \<in> set rows. snd r \<noteq> [] \<and> (\<forall>v \<in> set (snd r). comma \<notin> set (fmt v))"
  shows "map (split_on comma) (map (\<lambda>r. join comma (map fmt (snd r))) rows)
           = map (\<lambda>r. map fmt (snd r)) rows"
  using assms by (induction rows) (auto simp: split_on_join)

lemma body_concat_axis1:
  assumes "concat_axis1 Y X = Some df"
  shows "body df = map2 (\<lambda>(i, y) (j, x). (i, y @ x)) (body Y) (body X)"
    and "length (body Y) = length (body X)"
  using assms map_eq_imp_length_eq [of fst "body Y" fst "body X"]
  by (auto simp: concat_axis1_def index_of_def split: if_splits)

lemma write_csv_SomeD:
  assumes "write_csv fmt Y X p fs = Some (Inr fs')"
  shows "\<exists>df. concat_axis1 Y X = Some df \<and> fs' p = Some (File (to_csv fmt df False False))"
  using assms by (auto simp: write_csv_def write_text_def split: option.splits if_splits)

lemma those_parse:
  "\<forall>v \<in> set r. parse (fmt v) = Some v \<Longrightarrow> those (map parse (map fmt r)) = Some r"
  by (induction r) auto

lemma those_map_Some:
  "\<forall>x \<in> set xs. f x = Some (g x) \<Longrightarrow> those (map f xs) = Some (map g xs)"
  by (induction xs) auto


text \<open>What a file holds once the write has succeeded.\<close>

lemma file_format_of_written:
  assumes "write_csv fmt Y X p fs = Some (Inr fs')"
    and "\<forall>r \<in> set (body Y). length (snd r) = 1"
    and "\<forall>r \<in> set (body X). length (snd r) = 13"
    and "\<forall>r \<in> set (body Y) \<union> set (body X). \<forall>v \<in> set (snd r).
           comma \<notin> set (fmt v) \<and> newline \<notin> set (fmt v)"
  shows "\<exists>text. fs' p = Some (File text)
     \<and> length (read_lines text) = n_rows X
     \<and> map (split_on comma) (read_lines text)
         = map2 (\<lambda>(i, y) (j, x). fmt (hd y) # map fmt x) (body Y) (body X)
     \<and> (\<forall>l \<in> set (read_lines text). length (split_on comma l) = 14)"
proof -
  from write_csv_SomeD [OF assms(1)] obtain df where
    df: "concat_axis1 Y X = Some df" and written: "fs' p = Some (File (to_csv fmt df False False))"
    by blast
  note body = body_concat_axis1 [OF df]
  have cells: "\<forall>r \<in> set (body df). length (snd r) = 14
      \<and> (\<forall>v \<in> set (snd r). comma \<notin> set (fmt v) \<and> newline \<notin> set (fmt v))"
  proof
    fix r assume "r \<in> set (body df)"
    then obtain a b where ab: "(a, b) \<in> set (zip (body Y) (body X))"
      and r: "r = (fst a, snd a @ snd b)"
      unfolding body(1) by (auto simp: case_prod_unfold)
    have "a \<in> set (body Y)" "b \<in> set (body X)" using ab by (auto dest: set_zip_leftD set_zip_rightD)
    then show "length (snd r) = 14
      \<and> (\<forall>v \<in> set (snd r). comma \<notin> set (fmt v) \<and> newline \<notin> set (fmt v))"
      using assms(2-4) r by auto
  qed
  have lines: "read_lines (to_csv fmt df False False)
      = map (\<lambda>r. join comma (map fmt (snd r))) (body df)"
    by (rule read_lines_to_csv) (use cells in blast)
  have fields: "map (split_on comma) (read_lines (to_csv fmt df False False))
      = map (\<lambda>r. map fmt (snd r)) (body df)"
    unfolding lines by (rule fields_of_lines) (use cells in auto)
  have one: "\<forall>a \<in> set (body Y). \<exists>y. snd a = [y]"
  proof
    fix a assume "a \<in> set (body Y)"
    then have "length (snd a) = 1" using assms(2) by blast
    then show "\<exists>y. snd a = [y]" by (cases "snd a") auto
  qed
  have "map (\<lambda>r. map fmt (snd r)) (body df)
      = map2 (\<lambda>(i, y) (j, x). fmt (hd y) # map fmt x) (body Y) (body X)"
    unfolding body(1) using one
    by (auto simp: case_prod_unfold dest!: set_zip_leftD)
  moreover have "length (read_lines (to_csv fmt df False False)) = n_rows X"
    unfolding lines using body by (simp add: n_rows_def)
  moreover have "\<forall>l \<in> set (read_lines (to_csv fmt df False False)). length (split_on comma l) = 14"
  proof
    fix l assume "l \<in> set (read_lines (to_csv fmt df False False))"
    then have "split_on comma l \<in> set (map (split_on comma) (read_lines (to_csv fmt df False False)))"
      by simp
    then show "length (split_on comma l) = 14" unfolding fields using cells by auto
  qed
  ultimately show ?thesis using written fields by simp
qed

lemma round_trip_of_written:
  assumes "write_csv fmt Y X p fs = Some (Inr fs')"
    and "\<forall>r \<in> set (body Y). snd r \<noteq> []"
    and "\<forall>r \<in> set (body Y) \<union> set (body X). \<forall>v \<in> set (snd r).
           parse (fmt v) = Some v \<and> comma \<notin> set (fmt v) \<and> newline \<notin> set (fmt v)"
  shows "\<exists>text records. fs' p = Some (File text)
     \<and> read_csv parse text = Some records
     \<and> records = map2 (\<lambda>(i, y) (j, x). y @ x) (body Y) (body X)
     \<and> mset records = mset (map2 (\<lambda>(i, y) (j, x). y @ x) (body Y) (body X))"
proof -
  from write_csv_SomeD [OF assms(1)] obtain df where
    df: "concat_axis1 Y X = Some df" and written: "fs' p = Some (File (to_csv fmt df False False))"
    by blast
  note body = body_concat_axis1 [OF df]
  have cells: "\<forall>r \<in> set (body df). snd r \<noteq> []
      \<and> (\<forall>v \<in> set (snd r). parse (fmt v) = Some v \<and> comma \<notin> set (fmt v) \<and> newline \<notin> set (fmt v))"
  proof
    fix r assume "r \<in> set (body df)"
    then obtain a b where ab: "(a, b) \<in> set (zip (body Y) (body X))"
      and r: "r = (fst a, snd a @ snd b)"
      unfolding body(1) by (auto simp: case_prod_unfold)
    have "a \<in> set (body Y)" "b \<in> set (body X)" using ab by (auto dest: set_zip_leftD set_zip_rightD)
    then show "snd r \<noteq> []
      \<and> (\<forall>v \<in> set (snd r). parse (fmt v) = Some v \<and> comma \<notin> set (fmt v) \<and> newline \<notin> set (fmt v))"
      using assms(2,3) r by auto
  qed
  have lines: "read_lines (to_csv fmt df False False)
      = map (\<lambda>r. join comma (map fmt (snd r))) (body df)"
    by (rule read_lines_to_csv) (use cells in blast)
  have "\<forall>r \<in> set (body df).
      those (map parse (split_on comma (join comma (map fmt (snd r))))) = Some (snd r)"
  proof
    fix r assume r: "r \<in> set (body df)"
    then have "split_on comma (join comma (map fmt (snd r))) = map fmt (snd r)"
      using cells by (intro split_on_join) auto
    moreover have "those (map parse (map fmt (snd r))) = Some (snd r)"
      by (rule those_parse) (use cells r in blast)
    ultimately show "those (map parse (split_on comma (join comma (map fmt (snd r))))) = Some (snd r)"
      by (simp only:)
  qed
  then have "read_csv parse (to_csv fmt df False False) = Some (map snd (body df))"
    unfolding read_csv_def lines by (simp add: comp_def those_map_Some)
  moreover have "map snd (body df) = map2 (\<lambda>(i, y) (j, x). y @ x) (body Y) (body X)"
    unfolding body(1) by (simp add: case_prod_unfold)
  ultimately show ?thesis using written by simp
qed

text \<open>The write succeeds in an existing directory, for frames with the same labels.\<close>

lemma write_csv_ok:
  assumes "index_of Y = index_of X" "p \<noteq> []" "fs (butlast p) = Some Dir" "fs p \<noteq> Some Dir"
  shows "\<exists>df. concat_axis1 Y X = Some df
     \<and> write_csv fmt Y X p fs = Some (Inr (fs(p \<mapsto> File (to_csv fmt df False False))))"
  using assms by (simp add: write_csv_def concat_axis1_def write_text_def)

text \<open>
  Claim C3. For every record set (a target frame \<open>Y\<close> with one value per row and a feature
  frame \<open>X\<close> with 13 values per row, both with the same labels) the Local Writer,
  writing into an existing directory, produces a file that has exactly one line per
  record; the fields of a line, separated by commas, are the target value
  followed by the 13 feature values in the order of the frame's columns; every line
  has 14 fields, so there is no index column, and there is no header line. The text of
  a number contains neither a comma nor a newline.
\<close>

theorem csv_file_format:
  assumes "index_of Y = index_of X"
    and "p \<noteq> []" "fs (butlast p) = Some Dir" "fs p \<noteq> Some Dir"
    and "\<forall>r \<in> set (body Y). length (snd r) = 1"
    and "\<forall>r \<in> set (body X). length (snd r) = 13"
    and "\<forall>r \<in> set (body Y) \<union> set (body X). \<forall>v \<in> set (snd r).
           comma \<notin> set (fmt v) \<and> newline \<notin> set (fmt v)"
  shows "\<exists>fs' text. write_csv fmt Y X p fs = Some (Inr fs')
     \<and> fs' p = Some (File text)
     \<and> length (read_lines text) = n_rows X
     \<and> map (split_on comma) (read_lines text)
         = map2 (\<lambda>(i, y) (j, x). fmt (hd y) # map fmt x) (body Y) (body X)
     \<and> (\<forall>l \<in> set (read_lines text). length (split_on comma l) = 14)"
proof -
  from write_csv_ok [OF assms(1-4)] obtain fs' where
    w: "write_csv fmt Y X p fs = Some (Inr fs')" by blast
  show ?thesis using file_format_of_written [OF w assms(5-7)] w by blast
qed

text \<open>
  Claim C4. Writing a record set with the Local Writer into an existing directory
  succeeds, and reading the file back gives
  the same records, each with the target first and the features after it, in the same
  order; in particular the multiset of records is the same. \<open>parse\<close> reads back what
  \<open>fmt\<close> writes.
\<close>

theorem csv_round_trip:
  assumes "index_of Y = index_of X"
    and "p \<noteq> []" "fs (butlast p) = Some Dir" "fs p \<noteq> Some Dir"
    and "\<forall>r \<in> set (body Y). snd r \<noteq> []"
    and "\<forall>r \<in> set (body Y) \<union> set (body X). \<forall>v \<in> set (snd r).
           parse (fmt v) = Some v \<and> comma \<notin> set (fmt v) \<and> newline \<notin> set (fmt v)"
  shows "\<exists>fs' text records. write_csv fmt Y X p fs = Some (Inr fs')
     \<and> fs' p = Some (File text)
     \<and> read_csv parse text = Some records
     \<and> records = map2 (\<lambda>(i, y) (j, x). y @ x) (body Y) (body X)
     \<and> mset records = mset (map2 (\<lambda>(i, y) (j, x). y @ x) (body Y) (body X))"
proof -
  from write_csv_ok [OF assms(1-4)] obtain fs' where
    w: "write_csv fmt Y X p fs = Some (Inr fs')" by blast
  show ?thesis using round_trip_of_written [OF w assms(5,6)] w by blast
qed

subsection \<open>Features and target stay together\<close>

text \<open>A split that returns has met the guards.\<close>

lemma train_test_split_InrD:
  assumes "train_test_split p X Y r = Inr res"
  shows "n_rows X = n_rows Y \<and> 0 < r \<and> r < 1"
  using assms
  by (simp add: train_test_split_def validate_shuffle_split_def Let_def split: if_splits)

lemma splitter_InrD:
  assumes s: "splitter perm1 perm2 r1 r2 feature_names data target = Inr s"
    and l1: "length perm1 = length data"
  shows "0 < r1 \<and> r1 < 1 \<and> 0 < r2 \<and> r2 < 1 \<and> length target = length data"
proof -
  define X where "X = DataFrame feature_names data"
  define Y where "Y = DataFrame [''0''] (map (\<lambda>y. [y]) target)"
  define nt1 where "nt1 = n_test_of r1 (length data)"
  from s obtain res1 where first: "train_test_split perm1 X Y r1 = Inr res1"
    unfolding splitter_def Let_def X_def Y_def by (auto split: sum.splits)
  note d1 = train_test_split_InrD [OF first]
  have nX: "n_rows X = length data" and nY: "n_rows Y = length target"
    by (simp_all add: X_def Y_def)
  have c1: "length target = length data" "0 < r1" "r1 < 1"
    using d1 unfolding nX nY by auto
  have res1: "res1 = (safe_indexing X (drop nt1 perm1), safe_indexing X (take nt1 perm1),
           safe_indexing Y (drop nt1 perm1), safe_indexing Y (take nt1 perm1))"
    using first train_test_split_ok [of X Y r1 perm1] c1 l1
    by (simp add: X_def Y_def nt1_def)
  from s first obtain res2 where second:
    "train_test_split perm2 (safe_indexing X (drop nt1 perm1)) (safe_indexing Y (drop nt1 perm1)) r2
       = Inr res2"
    unfolding splitter_def Let_def X_def [symmetric] Y_def [symmetric] res1
    by (auto split: sum.splits)
  from train_test_split_InrD [OF second]
  have "0 < r2" "r2 < 1" by blast+
  then show ?thesis using c1 by simp
qed

lemma body_DataFrame_labels:
  "body (DataFrame names a) = map (\<lambda>l. (l, a ! l)) [0..<length a]"
  by (rule nth_equalityI) simp_all

lemma is_permutation_set: "is_permutation p n \<Longrightarrow> set p = {0..<n}"
  using is_permutation_mset [of p n] mset_eq_setD [of p "[0..<n]"] by simp

lemma map2_paired:
  "map2 (\<lambda>(i, a) (j, b). (i, a @ b)) (map (\<lambda>l. (l, f l)) ls) (map (\<lambda>l. (l, g l)) ls)
     = map (\<lambda>l. (l, f l @ g l)) ls"
  by (induction ls) auto

lemma write_csv_paired:
  assumes Y: "body Y = map (\<lambda>l. (l, [t l])) ls"
    and X: "body X = map (\<lambda>l. (l, d l)) ls"
    and w: "write_csv fmt Y X p fs = Some r"
  shows "r = write_text p (concat (map (\<lambda>l. join comma (map fmt (t l # d l)) @ [newline]) ls)) fs"
proof -
  have "index_of Y = index_of X" by (simp add: index_of_def Y X comp_def)
  then have "concat_axis1 Y X = Some \<lparr>columns = columns Y @ columns X,
      body = map (\<lambda>l. (l, [t l] @ d l)) ls\<rparr>"
    by (simp add: concat_axis1_def Y X map2_paired del: append.simps)
  then show ?thesis using w
    by (simp add: write_csv_def to_csv_def comp_def)
qed


lemma two_stage_bodies:
  assumes "body A = map (\<lambda>l. (l, f l)) ls"
    and "\<forall>i \<in> set i1. i < length ls" and "\<forall>i \<in> set i2. i < length i1"
  shows "body (safe_indexing (safe_indexing A i1) i2)
           = map (\<lambda>l. (l, f l)) (map ((!) (map ((!) ls) i1)) i2)"
    and "set (map ((!) (map ((!) ls) i1)) i2) \<subseteq> set ls"
  using assms by auto

lemma write_text_InrD: "write_text p t fs = Inr fs' \<Longrightarrow> fs' = fs(p \<mapsto> File t)"
  by (auto simp: write_text_def split: if_splits)

lemma local_writer_InrD:
  assumes "local_writer fmt data_dir s fs = Some (Inr fs')"
  shows "\<exists>fs1 fs2. cell5 data_dir fs = Inr fs1
     \<and> write_csv fmt (Y_val s) (X_val s) (os_path_join data_dir ''validation.csv'') fs1 = Some (Inr fs2)
     \<and> write_csv fmt (Y_train s) (X_train s) (os_path_join data_dir ''train.csv'') fs2 = Some (Inr fs')"
  using assms
  by (auto simp: local_writer_def cell6_def split: sum.splits option.splits)

text \<open>
  What the Splitter returns, row by row: the train frames hold the records of one list
  of labels, the validation frames those of another, features and target alike.
\<close>

lemma splitter_bodies:
  fixes data :: "'v list list"
  assumes s: "splitter perm1 perm2 r1 r2 feature_names data target = Inr s"
    and p1: "is_permutation perm1 (length data)"
    and p2: "is_permutation perm2 (length data - n_test_of r1 (length data))"
  shows "\<exists>tr va. set tr \<subseteq> {0..<length data} \<and> set va \<subseteq> {0..<length data}
     \<and> body (X_train s) = map (\<lambda>l. (l, data ! l)) tr
     \<and> body (Y_train s) = map (\<lambda>l. (l, [target ! l])) tr
     \<and> body (X_val s) = map (\<lambda>l. (l, data ! l)) va
     \<and> body (Y_val s) = map (\<lambda>l. (l, [target ! l])) va"
proof -
  define n where "n = length data"
  define nt1 where "nt1 = n_test_of r1 (length data)"
  define nt2 where "nt2 = n_test_of r2 (length data - nt1)"
  define X where "X = DataFrame feature_names data"
  define Y where "Y = DataFrame [''0''] (map (\<lambda>y. [y]) target)"
  define i1 where "i1 = drop nt1 perm1"
  define tr where "tr = map ((!) (map ((!) [0..<n]) i1)) (drop nt2 perm2)"
  define va where "va = map ((!) (map ((!) [0..<n]) i1)) (take nt2 perm2)"
  have l1: "length perm1 = length data" using p1 by (rule is_permutation_length)
  have p2': "is_permutation perm2 (length data - nt1)" using p2 by (simp only: nt1_def)
  have l2: "length perm2 = length data - nt1" using p2' by (rule is_permutation_length)
  note c = splitter_InrD [OF s l1]
  have len: "length target = length data" using c by blast
  have "splitter perm1 perm2 r1 r2 feature_names data target =
    Inr \<lparr>X_train = safe_indexing (safe_indexing X (drop nt1 perm1)) (drop nt2 perm2),
         X_val = safe_indexing (safe_indexing X (drop nt1 perm1)) (take nt2 perm2),
         X_test = safe_indexing X (take nt1 perm1),
         Y_train = safe_indexing (safe_indexing Y (drop nt1 perm1)) (drop nt2 perm2),
         Y_val = safe_indexing (safe_indexing Y (drop nt1 perm1)) (take nt2 perm2),
         Y_test = safe_indexing Y (take nt1 perm1)\<rparr>"
    by (rule splitter_ok [OF _ _ _ _ len nt1_def nt2_def p1 p2' X_def Y_def])
       (use c in blast)+
  with s have parts:
    "X_train s = safe_indexing (safe_indexing X i1) (drop nt2 perm2)"
    "X_val s = safe_indexing (safe_indexing X i1) (take nt2 perm2)"
    "Y_train s = safe_indexing (safe_indexing Y i1) (drop nt2 perm2)"
    "Y_val s = safe_indexing (safe_indexing Y i1) (take nt2 perm2)"
    by (auto simp: i1_def)
  have bX: "body X = map (\<lambda>l. (l, data ! l)) [0..<n]"
    unfolding X_def n_def by (rule body_DataFrame_labels)
  have bY: "body Y = map (\<lambda>l. (l, [target ! l])) [0..<n]"
    unfolding Y_def n_def using len by (intro nth_equalityI) simp_all
  have r1: "\<forall>i \<in> set i1. i < length [0..<n]"
    using is_permutation_set [OF p1] set_drop_subset [of nt1 perm1] by (auto simp: i1_def n_def)
  have li1: "length i1 = length data - nt1" by (simp add: i1_def l1)
  have r2d: "\<forall>i \<in> set (drop nt2 perm2). i < length i1"
    using is_permutation_set [OF p2'] set_drop_subset [of nt2 perm2] by (auto simp: li1)
  have r2t: "\<forall>i \<in> set (take nt2 perm2). i < length i1"
    using is_permutation_set [OF p2'] set_take_subset [of nt2 perm2] by (auto simp: li1)
  have bodies:
    "body (X_train s) = map (\<lambda>l. (l, data ! l)) tr"
    "body (Y_train s) = map (\<lambda>l. (l, [target ! l])) tr"
    "body (X_val s) = map (\<lambda>l. (l, data ! l)) va"
    "body (Y_val s) = map (\<lambda>l. (l, [target ! l])) va"
    unfolding parts tr_def va_def
    using two_stage_bodies(1) [OF bX r1 r2d] two_stage_bodies(1) [OF bY r1 r2d]
      two_stage_bodies(1) [OF bX r1 r2t] two_stage_bodies(1) [OF bY r1 r2t]
    by blast+
  have labels: "set tr \<subseteq> {0..<length data}" "set va \<subseteq> {0..<length data}"
    unfolding tr_def va_def
    using two_stage_bodies(2) [OF bX r1 r2d] two_stage_bodies(2) [OF bX r1 r2t]
    by (simp_all add: n_def)
  show ?thesis using bodies labels by blast
qed

text \<open>
  So the two concatenations of cell 6 are always inside the model: on the Splitter's
  frames the Local Writer either raises or writes.
\<close>

lemma local_writer_defined:
  fixes data :: "'v list list"
  assumes "splitter perm1 perm2 r1 r2 feature_names data target = Inr s"
    and "is_permutation perm1 (length data)"
    and "is_permutation perm2 (length data - n_test_of r1 (length data))"
  shows "local_writer fmt data_dir s fs \<noteq> None"
proof -
  from splitter_bodies [OF assms] obtain tr va where
    "body (X_train s) = map (\<lambda>l. (l, data ! l)) tr"
    "body (Y_train s) = map (\<lambda>l. (l, [target ! l])) tr"
    "body (X_val s) = map (\<lambda>l. (l, data ! l)) va"
    "body (Y_val s) = map (\<lambda>l. (l, [target ! l])) va"
    by blast
  then have "index_of (Y_train s) = index_of (X_train s)" "index_of (Y_val s) = index_of (X_val s)"
    by (simp_all add: index_of_def comp_def)
  then show ?thesis
    by (simp add: local_writer_def cell6_def write_csv_def concat_axis1_def
        split: sum.splits option.splits)
qed

text \<open>
  Claim C5. Through both splits, the concatenation and the serialisation, the target
  and the features of a record stay together: every line of \<^verbatim>\<open>train.csv\<close> and of
  \<^verbatim>\<open>validation.csv\<close> is the text of the target value and the feature values of one
  and the same record \<open>i\<close> of the dataset.
\<close>

theorem records_stay_paired:
  fixes data :: "'v list list"
  assumes s: "splitter perm1 perm2 r1 r2 feature_names data target = Inr s"
    and p1: "is_permutation perm1 (length data)"
    and p2: "is_permutation perm2 (length data - n_test_of r1 (length data))"
    and w: "local_writer fmt data_dir s fs = Some (Inr fs')"
  shows "\<exists>train_labels val_labels.
       set train_labels \<subseteq> {0..<length data} \<and> set val_labels \<subseteq> {0..<length data}
     \<and> fs' (os_path_join data_dir ''train.csv'') = Some (File (concat (map
           (\<lambda>i. join comma (map fmt (target ! i # data ! i)) @ [newline]) train_labels)))
     \<and> fs' (os_path_join data_dir ''validation.csv'') = Some (File (concat (map
           (\<lambda>i. join comma (map fmt (target ! i # data ! i)) @ [newline]) val_labels)))"
proof -
  from splitter_bodies [OF s p1 p2] obtain tr va where
    labels: "set tr \<subseteq> {0..<length data}" "set va \<subseteq> {0..<length data}"
    and bodies: "body (X_train s) = map (\<lambda>l. (l, data ! l)) tr"
      "body (Y_train s) = map (\<lambda>l. (l, [target ! l])) tr"
      "body (X_val s) = map (\<lambda>l. (l, data ! l)) va"
      "body (Y_val s) = map (\<lambda>l. (l, [target ! l])) va"
    by blast
  from local_writer_InrD [OF w] obtain fs1 fs2 where
    wv: "write_csv fmt (Y_val s) (X_val s) (os_path_join data_dir ''validation.csv'') fs1
           = Some (Inr fs2)"
    and wt: "write_csv fmt (Y_train s) (X_train s) (os_path_join data_dir ''train.csv'') fs2
           = Some (Inr fs')"
    by blast
  have fs2: "fs2 = fs1(os_path_join data_dir ''validation.csv'' \<mapsto> File (concat (map
           (\<lambda>i. join comma (map fmt (target ! i # data ! i)) @ [newline]) va)))"
    using write_csv_paired [OF bodies(4) bodies(3) wv] by (simp add: write_text_InrD)
  have fs': "fs' = fs2(os_path_join data_dir ''train.csv'' \<mapsto> File (concat (map
           (\<lambda>i. join comma (map fmt (target ! i # data ! i)) @ [newline]) tr)))"
    using write_csv_paired [OF bodies(2) bodies(1) wt] by (simp add: write_text_InrD)
  have "fs' (os_path_join data_dir ''train.csv'') = Some (File (concat (map
           (\<lambda>i. join comma (map fmt (target ! i # data ! i)) @ [newline]) tr)))"
    by (simp add: fs')
  moreover have "fs' (os_path_join data_dir ''validation.csv'') = Some (File (concat (map
           (\<lambda>i. join comma (map fmt (target ! i # data ! i)) @ [newline]) va)))"
    by (simp add: fs' fs2 os_path_join_def)
  ultimately show ?thesis using labels by blast
qed

subsection \<open>The data directory\<close>

lemma wellformed_nonempty: "wellformed fs \<Longrightarrow> fs p = None \<Longrightarrow> p \<noteq> []"
  by (auto simp: wellformed_def)

lemma wellformed_parent: "wellformed fs \<Longrightarrow> fs p \<noteq> None \<Longrightarrow> p \<noteq> [] \<Longrightarrow> fs (butlast p) = Some Dir"
  by (simp add: wellformed_def)

lemma os_mkdir_ok:
  assumes "wellformed fs" "fs p = None" "fs (butlast p) = Some Dir"
  shows "os_mkdir p fs = Inr (fs(p \<mapsto> Dir))" and "wellformed (fs(p \<mapsto> Dir))"
proof -
  show "os_mkdir p fs = Inr (fs(p \<mapsto> Dir))" using assms by (simp add: os_mkdir_def)
  have ne: "p \<noteq> []" using assms(1,2) by (rule wellformed_nonempty)
  show "wellformed (fs(p \<mapsto> Dir))"
    unfolding wellformed_def
  proof (intro conjI allI impI)
    show "(fs(p \<mapsto> Dir)) [] = Some Dir" using assms(1) ne by (simp add: wellformed_def)
  next
    fix q assume q: "q \<noteq> []" "(fs(p \<mapsto> Dir)) q \<noteq> None"
    show "(fs(p \<mapsto> Dir)) (butlast q) = Some Dir"
    proof (cases "q = p")
      case True
      then show ?thesis using assms(3) by simp
    next
      case False
      then have "fs q \<noteq> None" using q(2) by simp
      then have "fs (butlast q) = Some Dir" using wellformed_parent [OF assms(1) _ q(1)] by simp
      then show ?thesis by simp
    qed
  qed
qed

text \<open>
  \<^verbatim>\<open>os.makedirs\<close> succeeds on a free path of which no component is a regular file.
\<close>

lemma os_makedirs_creates:
  assumes "wellformed fs" "fs p = None"
    and "\<forall>k \<le> length p. \<forall>t. fs (take k p) \<noteq> Some (File t)"
  shows "\<exists>fs'. os_makedirs p fs = Inr fs' \<and> created fs p fs'"
  using assms
proof (induction p fs rule: os_makedirs.induct)
  case (1 name fs)
  have ne: "name \<noteq> []" using "1.prems"(1,2) by (rule wellformed_nonempty)
  show ?case
  proof (cases "butlast name \<noteq> [] \<and> \<not> os_path_exists fs (butlast name)")
    case True
    then have hd_none: "fs (butlast name) = None" by (simp add: os_path_exists_def)
    have pre: "\<forall>k \<le> length (butlast name). \<forall>t. fs (take k (butlast name)) \<noteq> Some (File t)"
    proof (intro allI impI)
      fix k t assume "k \<le> length (butlast name)"
      then have k: "k \<le> length name - 1" by simp
      then have "take k (butlast name) = take k name" "k \<le> length name"
        by (auto simp add: butlast_conv_take min_def)
      then show "fs (take k (butlast name)) \<noteq> Some (File t)" using "1.prems"(3) by simp
    qed
    from "1.IH" [OF refl _ "1.prems"(1) hd_none pre] ne True
    obtain fs1 where m: "os_makedirs (butlast name) fs = Inr fs1"
      and c: "created fs (butlast name) fs1" by blast
    have wf1: "wellformed fs1" and d1: "fs1 (butlast name) = Some Dir"
      using c by (simp_all add: created_def)
    have "fs1 name = fs name \<or> (fs name = None \<and> length name \<le> length (butlast name))"
      using c by (simp add: created_def)
    moreover have "length (butlast name) < length name" using ne by simp
    ultimately have n1: "fs1 name = None" using "1.prems"(2) by auto
    have eq: "os_makedirs name fs = os_mkdir name fs1"
      by (subst os_makedirs.simps) (use ne True m in \<open>simp add: Let_def\<close>)
    have "created fs name (fs1(name \<mapsto> Dir))"
      unfolding created_def
    proof (intro conjI allI)
      show "wellformed (fs1(name \<mapsto> Dir))" using wf1 n1 d1 by (rule os_mkdir_ok(2))
      show "(fs1(name \<mapsto> Dir)) name = Some Dir" by simp
      fix q
      have "fs1 q = fs q \<or> (fs q = None \<and> length q \<le> length (butlast name))"
        using c by (simp add: created_def)
      then show "(fs1(name \<mapsto> Dir)) q = fs q \<or> (fs q = None \<and> length q \<le> length name)"
        using "1.prems"(2) by auto
    qed
    then show ?thesis using eq os_mkdir_ok(1) [OF wf1 n1 d1] by simp
  next
    case False
    have eq: "os_makedirs name fs = os_mkdir name fs"
      by (subst os_makedirs.simps) (use False in \<open>auto simp add: Let_def\<close>)
    have par: "fs (butlast name) = Some Dir"
    proof (cases "butlast name = []")
      case True
      then show ?thesis using "1.prems"(1) by (simp add: wellformed_def)
    next
      case nonroot: False
      then have "fs (butlast name) \<noteq> None" using False by (simp add: os_path_exists_def)
      then obtain nd where nd: "fs (butlast name) = Some nd" by blast
      have "butlast name = take (length name - 1) name" by (simp add: butlast_conv_take)
      then have "\<forall>t. fs (butlast name) \<noteq> Some (File t)"
        using "1.prems"(3) by (metis diff_le_self)
      then show ?thesis using nd by (cases nd) auto
    qed
    have "created fs name (fs(name \<mapsto> Dir))"
      unfolding created_def
      using os_mkdir_ok(2) [OF "1.prems"(1,2) par] "1.prems"(2) by auto
    then show ?thesis using eq os_mkdir_ok(1) [OF "1.prems"(1,2) par] by simp
  qed
qed

text \<open>The sample split is what cell 4 returns for the sample records.\<close>

lemma sample_split_is_cell4:
  "cell4 [2, 0, 1, 3, 4] [1, 0, 2] boston_feature_names sample_data sample_target = Inr sample_split"
  by code_simp

lemma wf_bare: "wellformed bare_fs"
  by (auto simp: wellformed_def bare_fs_def split: if_splits)

lemma wf_blocked: "wellformed blocked_fs"
  by (auto simp: wellformed_def blocked_fs_def split: if_splits)

text \<open>
  Claim C9, as the code has it. If nothing exists at the data directory and no
  component of its path is a regular file, cell 5 creates the directory (with its
  missing ancestors) and both files are written, for every record set whose target and
  feature frames carry the same labels, as the Splitter's do.
\<close>

theorem local_writer_creates_directory:
  assumes wf: "wellformed fs" and missing: "fs data_dir = None"
    and nofile: "\<forall>k \<le> length data_dir. \<forall>t. fs (take k data_dir) \<noteq> Some (File t)"
    and val: "index_of (Y_val s) = index_of (X_val s)"
    and train: "index_of (Y_train s) = index_of (X_train s)"
  shows "\<exists>fs1 fs'. cell5 data_dir fs = Inr fs1 \<and> fs1 data_dir = Some Dir
     \<and> local_writer fmt data_dir s fs = Some (Inr fs')
     \<and> fs' data_dir = Some Dir
     \<and> (\<exists>t. fs' (os_path_join data_dir ''validation.csv'') = Some (File t))
     \<and> (\<exists>t. fs' (os_path_join data_dir ''train.csv'') = Some (File t))"
proof -
  let ?pv = "os_path_join data_dir ''validation.csv''"
  let ?pt = "os_path_join data_dir ''train.csv''"
  from os_makedirs_creates [OF wf missing nofile] obtain fs1 where
    m: "os_makedirs data_dir fs = Inr fs1" and c: "created fs data_dir fs1" by blast
  have c5: "cell5 data_dir fs = Inr fs1" using m missing by (simp add: cell5_def os_path_exists_def)
  have wf1: "wellformed fs1" and d1: "fs1 data_dir = Some Dir"
    using c by (simp_all add: created_def)
  have below: "fs (data_dir @ [name]) = None" for name
  proof (rule ccontr)
    assume "fs (data_dir @ [name]) \<noteq> None"
    then have "fs (butlast (data_dir @ [name])) = Some Dir"
      using wellformed_parent [OF wf] by blast
    then show False using missing by simp
  qed
  have below1: "fs1 (data_dir @ [name]) = None" for name
  proof -
    have "fs1 (data_dir @ [name]) = fs (data_dir @ [name])
        \<or> (fs (data_dir @ [name]) = None \<and> length (data_dir @ [name]) \<le> length data_dir)"
      using c unfolding created_def by blast
    then show ?thesis using below [of name] by auto
  qed
  from write_csv_ok [OF val, of ?pv fs1 fmt] obtain dv where
    wv: "write_csv fmt (Y_val s) (X_val s) ?pv fs1
           = Some (Inr (fs1(?pv \<mapsto> File (to_csv fmt dv False False))))"
    using d1 below1 by (auto simp: os_path_join_def)
  let ?fs2 = "fs1(?pv \<mapsto> File (to_csv fmt dv False False))"
  from write_csv_ok [OF train, of ?pt ?fs2 fmt] obtain dt where
    wt: "write_csv fmt (Y_train s) (X_train s) ?pt ?fs2
           = Some (Inr (?fs2(?pt \<mapsto> File (to_csv fmt dt False False))))"
    using d1 below1 by (auto simp: os_path_join_def)
  let ?fs' = "?fs2(?pt \<mapsto> File (to_csv fmt dt False False))"
  have "local_writer fmt data_dir s fs = Some (Inr ?fs')"
    by (simp add: local_writer_def c5 cell6_def wv wt)
  moreover have "?fs' data_dir = Some Dir" using d1 by (simp add: os_path_join_def)
  moreover have "?fs' ?pv = Some (File (to_csv fmt dv False False))"
    by (simp add: os_path_join_def)
  moreover have "?fs' ?pt = Some (File (to_csv fmt dt False False))" by simp
  ultimately show ?thesis using c5 d1 by blast
qed

text \<open>
  Claim C10. Writing a record set of zero rows into an existing directory raises no
  error and leaves an empty file at the target path.
\<close>

theorem zero_rows_empty_file:
  assumes "body Y = []" "body X = []"
    and "p \<noteq> []" "fs (butlast p) = Some Dir" "fs p \<noteq> Some Dir"
  shows "write_csv fmt Y X p fs = Some (Inr (fs(p \<mapsto> File [])))"
  using assms by (simp add: write_csv_def concat_axis1_def index_of_def write_text_def to_csv_def)


subsection \<open>The Local Writer on the sample inputs\<close>

text \<open>The train part of the sample split, written into the data directory.\<close>

theorem csv_file_format_witness:
  "\<exists>fs' text.
       write_csv fmt_text (Y_train sample_split) (X_train sample_split)
         [''data'', ''boston'', ''train.csv''] home_fs = Some (Inr fs')
     \<and> fs' [''data'', ''boston'', ''train.csv''] = Some (File text)
     \<and> length (read_lines text) = n_rows (X_train sample_split)
     \<and> map (split_on comma) (read_lines text)
         = map2 (\<lambda>(i, y) (j, x). fmt_text (hd y) # map fmt_text x)
             (body (Y_train sample_split)) (body (X_train sample_split))
     \<and> (\<forall>l \<in> set (read_lines text). length (split_on comma l) = 14)"
proof -
  have h1: "index_of (Y_train sample_split) = index_of (X_train sample_split)"
    by (simp add: index_of_def sample_split_def)
  have h2: "[''data'', ''boston'', ''train.csv''] \<noteq> []"
    and h3: "home_fs (butlast [''data'', ''boston'', ''train.csv'']) = Some Dir"
    and h4: "home_fs [''data'', ''boston'', ''train.csv''] \<noteq> Some Dir"
    by (simp_all add: home_fs_def)
  have h5: "\<forall>r \<in> set (body (Y_train sample_split)). length (snd r) = 1"
    by (simp add: sample_split_def)
  have h6: "\<forall>r \<in> set (body (X_train sample_split)). length (snd r) = 13"
    by (simp add: sample_split_def sample_data_def)
  have h7: "\<forall>r \<in> set (body (Y_train sample_split)) \<union> set (body (X_train sample_split)).
      \<forall>v \<in> set (snd r). comma \<notin> set (fmt_text v) \<and> newline \<notin> set (fmt_text v)"
    by code_simp
  show ?thesis by (rule csv_file_format [OF h1 h2 h3 h4 h5 h6 h7])
qed

text \<open>The validation part of the sample split, written and read back.\<close>

theorem csv_round_trip_witness:
  "\<exists>fs' text records.
       write_csv fmt_text (Y_val sample_split) (X_val sample_split)
         [''data'', ''boston'', ''validation.csv''] home_fs = Some (Inr fs')
     \<and> fs' [''data'', ''boston'', ''validation.csv''] = Some (File text)
     \<and> read_csv num_text text = Some records
     \<and> records = map2 (\<lambda>(i, y) (j, x). y @ x)
                    (body (Y_val sample_split)) (body (X_val sample_split))
     \<and> mset records = mset (map2 (\<lambda>(i, y) (j, x). y @ x)
                    (body (Y_val sample_split)) (body (X_val sample_split)))"
proof -
  have h1: "index_of (Y_val sample_split) = index_of (X_val sample_split)"
    by (simp add: index_of_def sample_split_def)
  have h2: "[''data'', ''boston'', ''validation.csv''] \<noteq> []"
    and h3: "home_fs (butlast [''data'', ''boston'', ''validation.csv'']) = Some Dir"
    and h4: "home_fs [''data'', ''boston'', ''validation.csv''] \<noteq> Some Dir"
    by (simp_all add: home_fs_def)
  have h5: "\<forall>r \<in> set (body (Y_val sample_split)). snd r \<noteq> []"
    by (simp add: sample_split_def)
  have h6: "\<forall>r \<in> set (body (Y_val sample_split)) \<union> set (body (X_val sample_split)).
      \<forall>v \<in> set (snd r). num_text (fmt_text v) = Some v
        \<and> comma \<notin> set (fmt_text v) \<and> newline \<notin> set (fmt_text v)"
    by code_simp
  show ?thesis by (rule csv_round_trip [OF h1 h2 h3 h4 h5 h6])
qed

text \<open>The whole of cells 4 to 6 on the five sample records.\<close>

lemma local_writer_sample:
  "\<exists>fs'. local_writer fmt_text [''data'', ''boston''] sample_split home_fs = Some (Inr fs')"
proof -
  have v: "index_of (Y_val sample_split) = index_of (X_val sample_split)"
    and t: "index_of (Y_train sample_split) = index_of (X_train sample_split)"
    by (simp_all add: index_of_def sample_split_def)
  have c5: "cell5 [''data'', ''boston''] home_fs = Inr home_fs"
    by (simp add: cell5_def os_path_exists_def home_fs_def)
  from write_csv_ok [OF v, of "os_path_join [''data'', ''boston''] ''validation.csv''" home_fs fmt_text]
  obtain fs2 where wv: "write_csv fmt_text (Y_val sample_split) (X_val sample_split)
         (os_path_join [''data'', ''boston''] ''validation.csv'') home_fs = Some (Inr fs2)"
    and fs2: "\<exists>t. fs2 = home_fs(os_path_join [''data'', ''boston''] ''validation.csv'' \<mapsto> File t)"
    by (auto simp: home_fs_def os_path_join_def)
  from write_csv_ok [OF t, of "os_path_join [''data'', ''boston''] ''train.csv''" fs2 fmt_text] fs2
  obtain fs' where "write_csv fmt_text (Y_train sample_split) (X_train sample_split)
         (os_path_join [''data'', ''boston''] ''train.csv'') fs2 = Some (Inr fs')"
    by (auto simp: home_fs_def os_path_join_def)
  then show ?thesis using c5 wv by (simp add: local_writer_def cell6_def)
qed

theorem records_stay_paired_witness:
  "\<exists>fs' train_labels val_labels.
       local_writer fmt_text [''data'', ''boston''] sample_split home_fs = Some (Inr fs')
     \<and> set train_labels \<subseteq> {0..<length sample_data} \<and> set val_labels \<subseteq> {0..<length sample_data}
     \<and> fs' (os_path_join [''data'', ''boston''] ''train.csv'') = Some (File (concat (map
           (\<lambda>i. join comma (map fmt_text (sample_target ! i # sample_data ! i)) @ [newline])
           train_labels)))
     \<and> fs' (os_path_join [''data'', ''boston''] ''validation.csv'') = Some (File (concat (map
           (\<lambda>i. join comma (map fmt_text (sample_target ! i # sample_data ! i)) @ [newline])
           val_labels)))"
proof -
  have len: "length sample_data = 5" by (simp add: sample_data_def)
  have s: "splitter [2, 0, 1, 3, 4] [1, 0, 2] (to_double (33 / 100)) (to_double (33 / 100))
             boston_feature_names sample_data sample_target = Inr sample_split"
    using sample_split_is_cell4 by (simp add: cell4_def)
  have rest: "(5::nat) - 2 = 3" by simp
  have p1: "is_permutation [2, 0, 1, 3, 4] (length sample_data)"
    unfolding len by code_simp
  have p2: "is_permutation [1, 0, 2]
      (length sample_data - n_test_of (to_double (33 / 100)) (length sample_data))"
    unfolding len n_test_5 rest by code_simp
  from local_writer_sample obtain fs' where
    w: "local_writer fmt_text [''data'', ''boston''] sample_split home_fs = Some (Inr fs')"
    by blast
  show ?thesis using records_stay_paired [OF s p1 p2 w] w by blast
qed


text \<open>Starting from a file system that has the root only.\<close>

theorem local_writer_creates_directory_witness:
  "\<exists>fs1 fs'. cell5 [''data'', ''boston''] bare_fs = Inr fs1
     \<and> fs1 [''data'', ''boston''] = Some Dir
     \<and> local_writer fmt_text [''data'', ''boston''] sample_split bare_fs = Some (Inr fs')
     \<and> fs' [''data'', ''boston''] = Some Dir
     \<and> (\<exists>t. fs' (os_path_join [''data'', ''boston''] ''validation.csv'') = Some (File t))
     \<and> (\<exists>t. fs' (os_path_join [''data'', ''boston''] ''train.csv'') = Some (File t))"
proof -
  have missing: "bare_fs [''data'', ''boston''] = None" by (simp add: bare_fs_def)
  have nofile: "\<forall>k \<le> length [''data'', ''boston'']. \<forall>t.
      bare_fs (take k [''data'', ''boston'']) \<noteq> Some (File t)"
    by (simp add: bare_fs_def)
  have v: "index_of (Y_val sample_split) = index_of (X_val sample_split)"
    and t: "index_of (Y_train sample_split) = index_of (X_train sample_split)"
    by (simp_all add: index_of_def sample_split_def)
  show ?thesis by (rule local_writer_creates_directory [OF wf_bare missing nofile v t])
qed


text \<open>
  Claim C9 as stated fails when a regular file named \<open>data\<close> is in the way: nothing
  exists at \<open>data/boston\<close>, \<^verbatim>\<open>os.makedirs\<close> cannot create it and raises, and nothing is
  written.
\<close>

theorem local_writer_blocked_counterexample:
  "wellformed blocked_fs \<and> blocked_fs [''data'', ''boston''] = None
     \<and> local_writer fmt_text [''data'', ''boston''] sample_split blocked_fs = Some (Inl OSError)"
proof -
  have "local_writer fmt_text [''data'', ''boston''] sample_split blocked_fs = Some (Inl OSError)"
    by (simp add: local_writer_def cell5_def os_path_exists_def blocked_fs_def
        os_makedirs.simps os_mkdir_def)
  moreover have "blocked_fs [''data'', ''boston''] = None" by (simp add: blocked_fs_def)
  ultimately show ?thesis using wf_blocked by simp
qed


text \<open>A record set without rows, written into the data directory.\<close>

theorem zero_rows_empty_file_witness:
  "write_csv fmt_text \<lparr>columns = [''0''], body = []\<rparr> \<lparr>columns = boston_feature_names, body = []\<rparr>
       [''data'', ''boston'', ''train.csv''] home_fs
     = Some (Inr (home_fs([''data'', ''boston'', ''train.csv''] \<mapsto> File [])))"
  by (rule zero_rows_empty_file) (simp_all add: home_fs_def)


subsection \<open>The Inference Client\<close>

lemma read_numbers_shown:
  "\<forall>p \<in> set ps. num (shw p) = Some p \<Longrightarrow> read_numbers num (map shw ps) = ps"
  by (induction ps) auto

lemma join_empty:
  "\<forall>w \<in> set ws. w \<noteq> [] \<Longrightarrow> join sep ws = [] \<Longrightarrow> ws = []"
  by (induction sep ws rule: join.induct) auto

text \<open>
  Claim C7, as the code has it. The client does not compare the response with the
  batch it sent: whenever the endpoint answers with the text of \<open>k\<close> numbers separated
  by commas, the client returns exactly these \<open>k\<close> numbers, in the order of the
  response, whatever the number of rows in the batch.
\<close>

theorem inference_client_returns_response:
  assumes "csv_serializer fmt (map snd (body X_te)) = Inr payload"
    and "endpoint payload = Inr (join comma (map shw ps))"
    and "\<forall>p \<in> set ps. num (shw p) = Some p \<and> comma \<notin> set (shw p) \<and> shw p \<noteq> []"
  shows "inference_client endpoint fmt num X_te = Inr ps"
proof (cases "ps = []")
  case True
  then show ?thesis using assms(1,2)
    by (simp add: inference_client_def predict_def fromstring_def)
next
  case False
  have ne: "join comma (map shw ps) \<noteq> []"
  proof
    assume "join comma (map shw ps) = []"
    then have "map shw ps = []" using assms(3) by (intro join_empty [of _ comma]) auto
    then show False using False by simp
  qed
  have "split_on comma (join comma (map shw ps)) = map shw ps"
    using False assms(3) by (intro split_on_join) auto
  then have "fromstring num (join comma (map shw ps)) = ps"
    using ne assms(3) by (simp add: fromstring_def read_numbers_shown)
  then show ?thesis using assms(1,2)
    by (simp add: inference_client_def predict_def)
qed

text \<open>Two rows sent, three numbers answered, three numbers returned.\<close>

theorem inference_client_returns_response_witness:
  "\<exists>payload. csv_serializer fmt_text (map snd (body (X_test sample_split))) = Inr payload
     \<and> n_rows (X_test sample_split) = 2
     \<and> inference_client (fixed_endpoint ''21.5,30.1,18.9'') fmt_text num_text (X_test sample_split)
         = Inr [''21.5'', ''30.1'', ''18.9'']"
proof -
  obtain payload where
    p: "csv_serializer fmt_text (map snd (body (X_test sample_split))) = Inr payload"
    by (simp add: csv_serializer_def sample_split_def sample_data_def)
  have e: "fixed_endpoint ''21.5,30.1,18.9'' payload
      = Inr (join comma (map fmt_text [''21.5'', ''30.1'', ''18.9'']))"
    by (simp add: fixed_endpoint_def fmt_text_def)
  have c: "\<forall>p \<in> set [''21.5'', ''30.1'', ''18.9'']. num_text (fmt_text p) = Some p
      \<and> comma \<notin> set (fmt_text p) \<and> fmt_text p \<noteq> []"
    by code_simp
  have "n_rows (X_test sample_split) = 2" by (simp add: n_rows_def sample_split_def)
  then show ?thesis
    using inference_client_returns_response
      [where endpoint = "fixed_endpoint ''21.5,30.1,18.9''" and shw = fmt_text and num = num_text,
        OF p e c] p
    by blast
qed

text \<open>
  Claim C7 as stated fails for a response that holds fewer numbers than rows were
  sent: two rows sent, one number answered, and the client returns a vector of one
  prediction instead of failing.
\<close>

theorem inference_client_short_response_counterexample:
  "n_rows (X_test sample_split) = 2
     \<and> inference_client (fixed_endpoint ''21.5'') fmt_text num_text (X_test sample_split)
         = Inr [''21.5'']"
  by code_simp

end
